theory Spec2Isabelle
  imports Main
begin

section \<open>Python strings\<close>

text \<open>
  A Python \<open>str\<close> is a sequence of Unicode code points and \<open>len\<close> counts code points,
  so a string is modelled as a list of code points. String constants of the source are
  written with \<open>py\<close>.
\<close>

type_synonym pystr = "nat list"

definition py :: "string \<Rightarrow> pystr" where
  "py s = map of_char s"

text \<open>
  The whitespace of \<open>str.split()\<close> and \<open>str.strip()\<close> without arguments: the code points
  for which \<open>str.isspace\<close> holds.
\<close>

definition isspace :: "nat \<Rightarrow> bool" where
  "isspace c =
     ((9 \<le> c \<and> c \<le> 13) \<or> (28 \<le> c \<and> c \<le> 32) \<or> c = 133 \<or> c = 160 \<or> c = 5760 \<or>
      (8192 \<le> c \<and> c \<le> 8202) \<or> c = 8232 \<or> c = 8233 \<or> c = 8239 \<or> c = 8287 \<or>
      c = 12288)"

text \<open>
  \<open>text.split()\<close>: a scan that collects maximal runs of non-whitespace; \<open>w\<close> is the
  word being read.
\<close>

fun split_scan :: "pystr \<Rightarrow> pystr \<Rightarrow> pystr list" where
  "split_scan w [] = (if w = [] then [] else [w])"
| "split_scan w (c # cs) =
     (if isspace c then (if w = [] then split_scan [] cs else w # split_scan [] cs)
      else split_scan (w @ [c]) cs)"

definition py_split :: "pystr \<Rightarrow> pystr list" where
  "py_split s = split_scan [] s"

text \<open>\<open>s.strip()\<close>: leading and trailing whitespace removed.\<close>

definition py_strip :: "pystr \<Rightarrow> pystr" where
  "py_strip s = rev (dropWhile isspace (rev (dropWhile isspace s)))"

text \<open>\<open>sep.join(ws)\<close>.\<close>

fun py_join :: "pystr \<Rightarrow> pystr list \<Rightarrow> pystr" where
  "py_join sep [] = []"
| "py_join sep [w] = w"
| "py_join sep (w # v # ws) = w @ sep @ py_join sep (v # ws)"

text \<open>
  \<open>xs[i:j]\<close>: a negative bound counts from the end, and both bounds are clamped to the
  list.
\<close>

definition py_slice :: "'a list \<Rightarrow> int \<Rightarrow> int \<Rightarrow> 'a list" where
  "py_slice xs i j =
     (let n = int (length xs);
          lo = (if i < 0 then max 0 (i + n) else min i n);
          hi = (if j < 0 then max 0 (j + n) else min j n)
      in take (nat (hi - lo)) (drop (nat lo) xs))"

text \<open>\<open>str(k)\<close> for an integer: its decimal digits, with a minus sign when negative.\<close>

fun digits :: "nat \<Rightarrow> pystr" where
  "digits k = (if k < 10 then [48 + k] else digits (k div 10) @ [48 + k mod 10])"

declare digits.simps [simp del]

definition py_str :: "int \<Rightarrow> pystr" where
  "py_str k = (if k < 0 then 45 # digits (nat (- k)) else digits (nat k))"

section \<open>Chunking (\<open>DocumentProcessor._chunk_text\<close>)\<close>

datatype py_error = ValueError | ZeroDivisionError

text \<open>The dictionary built for each retained chunk; \<open>ctext\<close> is its \<open>'text'\<close> entry.\<close>

record chunk =
  chunk_id :: pystr
  document_id :: pystr
  filename :: pystr
  ctext :: pystr
  chunk_index :: int
  word_count :: int
  start_word_index :: int
  end_word_index :: int

text \<open>
  \<open>range(0, n, step)\<close> for \<open>n = len(words)\<close>. A zero step raises \<open>ValueError\<close>. Otherwise
  the range holds \<open>starts n step\<close>: nothing for a negative step (the stop \<open>n\<close> is never
  below the start \<open>0\<close>), and the multiples of \<open>step\<close> below \<open>n\<close> for a positive one.
\<close>

definition starts :: "nat \<Rightarrow> int \<Rightarrow> int list" where
  "starts n step =
     (if step \<le> 0 then []
      else map (\<lambda>k. int k * step) [0 ..< nat ((int n + step - 1) div step)])"

definition py_range0 :: "nat \<Rightarrow> int \<Rightarrow> py_error + int list" where
  "py_range0 n step = (if step = 0 then Inl ValueError else Inr (starts n step))"

text \<open>
  One pass of the loop body at start offset \<open>i\<close>: \<open>Inr None\<close> is the \<open>continue\<close> of a
  window whose trimmed text is shorter than 50 characters.
\<close>

definition chunk_window ::
  "int \<Rightarrow> pystr \<Rightarrow> pystr \<Rightarrow> pystr list \<Rightarrow> int \<Rightarrow> py_error + chunk option" where
  "chunk_window chunk_size doc fname words i =
     (let chunk_words = py_slice words i (i + chunk_size);
          chunk_text = py_join (py '' '') chunk_words
      in if length (py_strip chunk_text) < 50 then Inr None
         else if chunk_size = 0 then Inl ZeroDivisionError
         else Inr (Some \<lparr>
           chunk_id = doc @ py ''_chunk_'' @ py_str (i div chunk_size),
           document_id = doc,
           filename = fname,
           ctext = chunk_text,
           chunk_index = i div chunk_size,
           word_count = int (length chunk_words),
           start_word_index = i,
           end_word_index = min (i + chunk_size) (int (length words)) \<rparr>))"

fun chunk_loop ::
  "int \<Rightarrow> pystr \<Rightarrow> pystr \<Rightarrow> pystr list \<Rightarrow> int list \<Rightarrow> chunk list \<Rightarrow> py_error + chunk list" where
  "chunk_loop chunk_size doc fname words [] chunks = Inr chunks"
| "chunk_loop chunk_size doc fname words (i # rest) chunks =
     (case chunk_window chunk_size doc fname words i of
        Inl e \<Rightarrow> Inl e
      | Inr None \<Rightarrow> chunk_loop chunk_size doc fname words rest chunks
      | Inr (Some c) \<Rightarrow> chunk_loop chunk_size doc fname words rest (chunks @ [c]))"

text \<open>
  \<open>_chunk_text(text, document_id, filename)\<close>, with \<open>Config.CHUNK_SIZE\<close> and
  \<open>Config.CHUNK_OVERLAP\<close> (read from the environment, 1000 and 200 when unset) as the
  first two arguments. An exception is logged and raised again: the \<open>Inl\<close> results.
\<close>

definition chunk_text ::
  "int \<Rightarrow> int \<Rightarrow> pystr \<Rightarrow> pystr \<Rightarrow> pystr \<Rightarrow> py_error + chunk list" where
  "chunk_text chunk_size overlap txt doc fname =
     (let words = py_split txt
      in case py_range0 (length words) (chunk_size - overlap) of
           Inl e \<Rightarrow> Inl e
         | Inr offsets \<Rightarrow> chunk_loop chunk_size doc fname words offsets [])"

text \<open>The word span \<open>[start_word_index, end_word_index)\<close> of a chunk.\<close>

definition span :: "chunk \<Rightarrow> int \<times> int" where
  "span c = (start_word_index c, end_word_index c)"

text \<open>
  The text of the window at offset \<open>i\<close> (\<open>chunk_text\<close> in the loop body), whether the
  loop keeps that window, and the dictionary it appends when it does.
\<close>

definition window_text :: "int \<Rightarrow> pystr list \<Rightarrow> int \<Rightarrow> pystr" where
  "window_text chunk_size words i = py_join (py '' '') (py_slice words i (i + chunk_size))"

definition kept :: "int \<Rightarrow> pystr list \<Rightarrow> int \<Rightarrow> bool" where
  "kept chunk_size words i = (50 \<le> length (py_strip (window_text chunk_size words i)))"

definition window_chunk :: "int \<Rightarrow> pystr \<Rightarrow> pystr \<Rightarrow> pystr list \<Rightarrow> int \<Rightarrow> chunk" where
  "window_chunk chunk_size doc fname words i =
     \<lparr> chunk_id = doc @ py ''_chunk_'' @ py_str (i div chunk_size),
       document_id = doc,
       filename = fname,
       ctext = window_text chunk_size words i,
       chunk_index = i div chunk_size,
       word_count = int (length (py_slice words i (i + chunk_size))),
       start_word_index = i,
       end_word_index = min (i + chunk_size) (int (length words)) \<rparr>"

text \<open>What \<open>split\<close> returns: non-empty words without whitespace.\<close>

definition wordlike :: "pystr list \<Rightarrow> bool" where
  "wordlike ws = (\<forall>v\<in>set ws. v \<noteq> [] \<and> (\<forall>c\<in>set v. \<not> isspace c))"

text \<open>A text of \<open>n\<close> words, each followed by one space.\<close>

definition words_text :: "nat \<Rightarrow> pystr" where
  "words_text n = concat (replicate n (py ''word ''))"

text \<open>
  The number of words two chunks share when the second starts inside the first: the end
  offset of the first minus the start offset of the second.
\<close>

definition overlap :: "chunk \<Rightarrow> chunk \<Rightarrow> int" where
  "overlap c c' = end_word_index c - start_word_index c'"

text \<open>
  Three short texts for concrete runs: a sentence of 20 words, three words of 30 letters,
  and two words of 30 letters followed by two one-letter words and two more words of 30
  letters. \<open>offsets\<close> reads the start offset, end offset and word count of a chunk.
\<close>

definition sample_text :: pystr where
  "sample_text = py ''the quick brown fox jumps over the lazy dog and then runs far away into the deep green forest tonight''"

definition long_words_text :: pystr where
  "long_words_text = py ''aaaaaaaaaaaaaaaaaaaaaaaaaaaaaa bbbbbbbbbbbbbbbbbbbbbbbbbbbbbb cccccccccccccccccccccccccccccc''"

definition gap_text :: pystr where
  "gap_text = py ''aaaaaaaaaaaaaaaaaaaaaaaaaaaaaa bbbbbbbbbbbbbbbbbbbbbbbbbbbbbb c d eeeeeeeeeeeeeeeeeeeeeeeeeeeeee ffffffffffffffffffffffffffffff''"

definition offsets :: "chunk \<Rightarrow> int \<times> int \<times> int" where
  "offsets c = (start_word_index c, end_word_index c, word_count c)"

section \<open>Query pipeline (\<open>RAGPipeline\<close>, \<open>GeminiClient\<close>, \<open>ChromaDBClient.search_similar\<close>)\<close>

text \<open>
  \<open>str.lower\<close> is the interpreter's Unicode case mapping; the functions that call it take
  it as the parameter \<open>lower\<close>. \<open>ascii_lower\<close> is its restriction to ASCII letters, for
  concrete runs.
\<close>

definition ascii_lower :: "pystr \<Rightarrow> pystr" where
  "ascii_lower s = map (\<lambda>c. if 65 \<le> c \<and> c \<le> 90 then c + 32 else c) s"

text \<open>\<open>w in s\<close> for strings: \<open>w\<close> occurs in \<open>s\<close> as a contiguous run.\<close>

fun py_in :: "pystr \<Rightarrow> pystr \<Rightarrow> bool" where
  "py_in w [] = (w = [])"
| "py_in w (c # cs) = (take (length w) (c # cs) = w \<or> py_in w cs)"

text \<open>An exception raised by a call to an external service, with the text of \<open>str(e)\<close>.\<close>

datatype exn = Exn pystr

fun str_exn :: "exn \<Rightarrow> pystr" where
  "str_exn (Exn m) = m"

text \<open>Values of the metadata dictionary stored with a chunk.\<close>

datatype meta = MStr pystr | MInt int

text \<open>
  One result of a vector-store query: the stored text, its metadata dictionary and the
  distance (absent when the store returns no \<open>'distances'\<close>). Distances are floating-point
  numbers and are carried as an abstract type \<open>'d\<close>; \<open>'relevance_score'\<close>, computed from
  the distance in floating point, is represented by the distance it is computed from.
\<close>

record 'd hit =
  hit_text :: pystr
  hit_metadata :: "pystr \<rightharpoonup> meta"
  hit_distance :: "'d option"

text \<open>
  Modelled from the spec: the vector store and the generation service are external
  services, reached through \<open>collection.query(query_texts=[q], n_results=k)\<close>, which returns
  ranked (text, metadata, distance) results or raises, and through
  \<open>model.generate_content(prompt)\<close>, which returns the text of a completion or raises.
\<close>

record 'd services =
  collection_query :: "pystr \<Rightarrow> int \<Rightarrow> exn + 'd hit list"
  generate_content :: "pystr \<Rightarrow> exn + pystr"

text \<open>The calls made to the external services, in order.\<close>

datatype call = Query pystr int | Generate pystr

text \<open>
  \<open>ChromaDBClient.search_similar\<close>: an exception of the store is logged and the empty
  list is returned.
\<close>

definition search_similar :: "'d services \<Rightarrow> pystr \<Rightarrow> int \<Rightarrow> 'd hit list \<times> call list" where
  "search_similar svc query n_results =
     (case collection_query svc query n_results of
        Inl e \<Rightarrow> ([], [Query query n_results])
      | Inr results \<Rightarrow> (results, [Query query n_results]))"

text \<open>\<open>[f"Context {i+1}: {ctx}" for i, ctx in enumerate(context)]\<close>, from index \<open>i\<close> on.\<close>

fun context_lines :: "nat \<Rightarrow> pystr list \<Rightarrow> pystr list" where
  "context_lines i [] = []"
| "context_lines i (ctx # rest) =
     (py ''Context '' @ py_str (int i + 1) @ py '': '' @ ctx) # context_lines (Suc i) rest"

definition build_prompt :: "pystr \<Rightarrow> pystr list \<Rightarrow> pystr" where
  "build_prompt query context =
     (let context_text = py_join [10, 10] (context_lines 0 context)
      in py ''You are a helpful AI assistant. Use the following context to answer the user'' @
          [39] @
          py ''s question. '' @
          [10] @
          py ''            If the context doesn'' @
          [39] @
          py ''t contain enough information to answer the question, say so.'' @
          [10] @
          py ''            '' @
          [10] @
          py ''            Context:'' @
          [10] @
          py ''            '' @
          context_text @
          [10] @
          py ''            '' @
          [10] @
          py ''            User Question: '' @
          query @
          [10] @
          py ''            '' @
          [10] @
          py ''            Please provide a clear, concise, and accurate answer based on the context provided.'')"

text \<open>
  \<open>GeminiClient.generate_response\<close>: the stripped completion; an apology when the
  completion is empty; and, when the call raises, a message that holds \<open>str(e)\<close>, returned
  as if it were the response.
\<close>

definition generate_response :: "'d services \<Rightarrow> pystr \<Rightarrow> pystr list \<Rightarrow> pystr \<times> call list" where
  "generate_response svc query context =
     (let prompt = build_prompt query context
      in case generate_content svc prompt of
           Inl e \<Rightarrow> (py ''An error occurred while generating the response: '' @ str_exn e,
                     [Generate prompt])
         | Inr t \<Rightarrow>
             (if t \<noteq> [] then py_strip t
              else py ''I apologize, but I couldn'' @ [39] @
                   py ''t generate a response at this time.'',
              [Generate prompt]))"

text \<open>\<open>GeminiClient.validate_text\<close>.\<close>

fun has_inappropriate :: "pystr list \<Rightarrow> pystr \<Rightarrow> bool" where
  "has_inappropriate [] text_lower = False"
| "has_inappropriate (w # ws) text_lower =
     (if py_in w text_lower then True else has_inappropriate ws text_lower)"

definition validate_text :: "(pystr \<Rightarrow> pystr) \<Rightarrow> pystr \<Rightarrow> bool" where
  "validate_text lower t =
     (if t = [] \<or> length (py_strip t) < 10 then False
      else \<not> has_inappropriate [py ''spam'', py ''malware'', py ''virus''] (lower t))"

text \<open>One entry of \<open>'sources'\<close> in the result of a query.\<close>

record 'd source =
  src_filename :: meta
  src_chunk_index :: meta
  src_distance :: "'d option"
  text_preview :: pystr

text \<open>
  The dictionary \<open>process_query\<close> returns: \<open>Failure\<close> is \<open>{'success': False, 'error': ...}\<close>,
  \<open>Success\<close> holds \<open>'query'\<close>, \<open>'response'\<close>, \<open>'sources'\<close> and \<open>'total_sources'\<close>.
\<close>

datatype 'd query_result =
  Failure pystr
| Success pystr pystr "'d source list" nat

fun success :: "'d query_result \<Rightarrow> bool" where
  "success (Failure e) = False"
| "success (Success q r s n) = True"

text \<open>
  The source entry of one result. A metadata dictionary without \<open>'filename'\<close> or
  \<open>'chunk_index'\<close> raises \<open>KeyError\<close>, whose \<open>str\<close> is the quoted key.
\<close>

definition make_source :: "'d hit \<Rightarrow> exn + 'd source" where
  "make_source h =
     (case hit_metadata h (py ''filename'') of
        None \<Rightarrow> Inl (Exn ([39] @ py ''filename'' @ [39]))
      | Some f \<Rightarrow>
          (case hit_metadata h (py ''chunk_index'') of
             None \<Rightarrow> Inl (Exn ([39] @ py ''chunk_index'' @ [39]))
           | Some k \<Rightarrow>
               Inr \<lparr> src_filename = f, src_chunk_index = k, src_distance = hit_distance h,
                     text_preview =
                       (if length (hit_text h) > 200 then take 200 (hit_text h) @ py ''...''
                        else hit_text h) \<rparr>))"

fun make_sources :: "'d hit list \<Rightarrow> exn + 'd source list" where
  "make_sources [] = Inr []"
| "make_sources (h # hs) =
     (case make_source h of
        Inl e \<Rightarrow> Inl e
      | Inr s \<Rightarrow> (case make_sources hs of Inl e \<Rightarrow> Inl e | Inr ss \<Rightarrow> Inr (s # ss)))"

text \<open>
  \<open>RAGPipeline.process_query\<close>, returning the result and the external calls it made.
\<close>

definition process_query :: "'d services \<Rightarrow> pystr \<Rightarrow> int \<Rightarrow> 'd query_result \<times> call list" where
  "process_query svc query n_results =
     (if query = [] \<or> length (py_strip query) < 3
      then (Failure (py ''Query must be at least 3 characters long''), [])
      else
        (let (relevant_chunks, calls1) = search_similar svc query n_results
         in if relevant_chunks = []
            then (Failure (py ''No relevant documents found for your query''), calls1)
            else
              (let context_texts = map hit_text relevant_chunks;
                   (response, calls2) = generate_response svc query context_texts
               in case make_sources relevant_chunks of
                    Inl e \<Rightarrow>
                      (Failure (py ''An error occurred while processing your query: '' @ str_exn e),
                       calls1 @ calls2)
                  | Inr sources \<Rightarrow>
                      (Success query response sources (length relevant_chunks),
                       calls1 @ calls2))))"

text \<open>
  \<open>RAGPipeline.validate_query\<close>: \<open>Invalid\<close> is \<open>{'valid': False, 'error': ...}\<close>, \<open>Valid\<close> is
  \<open>{'valid': True, 'query_length': ...}\<close>.
\<close>

datatype validation = Invalid pystr | Valid nat

fun valid :: "validation \<Rightarrow> bool" where
  "valid (Invalid e) = False"
| "valid (Valid n) = True"

definition validate_query :: "(pystr \<Rightarrow> pystr) \<Rightarrow> pystr \<Rightarrow> validation" where
  "validate_query lower query =
     (if query = [] \<or> py_strip query = [] then Invalid (py ''Query cannot be empty'')
      else if length (py_strip query) < 3
        then Invalid (py ''Query must be at least 3 characters long'')
      else if length (py_strip query) > 1000
        then Invalid (py ''Query is too long (maximum 1000 characters)'')
      else if \<not> validate_text lower query
        then Invalid (py ''Query contains inappropriate content'')
      else Valid (length (py_strip query)))"

text \<open>
  Services for concrete runs: a store that finds nothing, a store whose query raises, and
  a store that returns one result while the generation call raises.
\<close>

definition sample_hit :: "unit hit" where
  "sample_hit =
     \<lparr> hit_text = py ''Chunking splits the text into windows of words.'',
       hit_metadata =
         [py ''document_id'' \<mapsto> MStr (py ''d1''), py ''chunk_index'' \<mapsto> MInt 0,
          py ''filename'' \<mapsto> MStr (py ''a.txt''), py ''page_number'' \<mapsto> MInt 0],
       hit_distance = Some () \<rparr>"

definition svc_store_empty :: "unit services" where
  "svc_store_empty =
     \<lparr> collection_query = (\<lambda>q k. Inr []),
       generate_content = (\<lambda>p. Inr (py ''An answer.'')) \<rparr>"

definition svc_store_down :: "unit services" where
  "svc_store_down =
     \<lparr> collection_query = (\<lambda>q k. Inl (Exn (py ''connection refused''))),
       generate_content = (\<lambda>p. Inr (py ''An answer.'')) \<rparr>"

definition svc_model_down :: "unit services" where
  "svc_model_down =
     \<lparr> collection_query = (\<lambda>q k. Inr [sample_hit]),
       generate_content = (\<lambda>p. Inl (Exn (py ''quota exceeded''))) \<rparr>"

definition sample_query :: pystr where
  "sample_query = py ''what is chunking''"

section \<open>Deleting the chunks of a document (\<open>ChromaDBClient.delete_document_chunks\<close>)\<close>

text \<open>An entry of the vector store: chunk identifier, text and metadata dictionary.\<close>

record entry =
  entry_id :: pystr
  entry_text :: pystr
  entry_metadata :: "pystr \<rightharpoonup> meta"

text \<open>
  Modelled from the spec: the vector store is an external service. Its
  \<open>query(query_texts=[q], n_results=k, where={"document_id": d})\<close> returns at most \<open>k\<close>
  of the entries whose metadata match the filter, nearest first; the ranking of the store
  is the parameter \<open>rank\<close>. Its \<open>delete(ids=...)\<close> removes the entries with the given
  identifiers.
\<close>

definition matches :: "pystr \<Rightarrow> entry \<Rightarrow> bool" where
  "matches d e = (entry_metadata e (py ''document_id'') = Some (MStr d))"

definition chroma_query ::
  "(pystr \<Rightarrow> entry list \<Rightarrow> entry list) \<Rightarrow> entry list \<Rightarrow> pystr \<Rightarrow> int \<Rightarrow> pystr \<Rightarrow> exn + entry list" where
  "chroma_query rank store q k d = Inr (take (nat k) (rank q (filter (matches d) store)))"

definition chroma_delete :: "entry list \<Rightarrow> pystr list \<Rightarrow> exn + entry list" where
  "chroma_delete store ids = Inr (filter (\<lambda>e. entry_id e \<notin> set ids) store)"

text \<open>
  \<open>delete_document_chunks(document_id)\<close>, as a function from the store before the call to the
  store after it, over the two operations of the store. \<open>results['ids']\<close> holds one list of
  identifiers for the one query text, so the test \<open>if results['ids']\<close> succeeds and
  \<open>delete\<close> is called with that list. An exception of either call is logged and
  swallowed: the store is left as it was.
\<close>

definition delete_document_chunks ::
  "(entry list \<Rightarrow> pystr \<Rightarrow> int \<Rightarrow> pystr \<Rightarrow> exn + entry list) \<Rightarrow>
   (entry list \<Rightarrow> pystr list \<Rightarrow> exn + entry list) \<Rightarrow> entry list \<Rightarrow> pystr \<Rightarrow> entry list" where
  "delete_document_chunks query delete store d =
     (case query store [] 1000 d of
        Inl e \<Rightarrow> store
      | Inr results \<Rightarrow>
          (case delete store (map entry_id results) of
             Inl e \<Rightarrow> store
           | Inr store' \<Rightarrow> store'))"

text \<open>
  The entries \<open>add_documents\<close> stores for chunks with sequence numbers \<open>0, ..., n - 1\<close> of
  document \<open>d\<close>, each under its own identifier.
\<close>

definition stored_chunk :: "pystr \<Rightarrow> nat \<Rightarrow> entry" where
  "stored_chunk d k =
     \<lparr> entry_id = d @ py ''_chunk_'' @ py_str (int k),
       entry_text = py ''text of chunk '' @ py_str (int k),
       entry_metadata =
         [py ''document_id'' \<mapsto> MStr d, py ''chunk_index'' \<mapsto> MInt (int k),
          py ''filename'' \<mapsto> MStr (py ''a.txt''), py ''page_number'' \<mapsto> MInt 0] \<rparr>"

definition stored_chunks :: "pystr \<Rightarrow> nat \<Rightarrow> entry list" where
  "stored_chunks d n = map (stored_chunk d) [0 ..< n]"

section \<open>File validation (\<open>DocumentProcessor.validate_file\<close>)\<close>

text \<open>\<open>p.rfind(c)\<close> for a single character: the last index of \<open>c\<close> in \<open>p\<close>, or \<open>-1\<close>.\<close>

fun rfind_scan :: "nat \<Rightarrow> int \<Rightarrow> nat \<Rightarrow> pystr \<Rightarrow> int" where
  "rfind_scan c found i [] = found"
| "rfind_scan c found i (x # xs) = rfind_scan c (if x = c then int i else found) (Suc i) xs"

definition py_rfind :: "pystr \<Rightarrow> nat \<Rightarrow> int" where
  "py_rfind p c = rfind_scan c (- 1) 0 p"

text \<open>
  \<open>os.path.splitext\<close> on POSIX (the separator is \<open>/\<close>, code point 47; the extension
  separator is the dot, code point 46). The loop skips the leading dots of the last path
  component: the extension starts at the last dot unless only dots precede it there.
\<close>

function splitext_loop :: "pystr \<Rightarrow> int \<Rightarrow> int \<Rightarrow> pystr \<times> pystr" where
  "splitext_loop p filenameIndex dotIndex =
     (if filenameIndex < dotIndex
      then (if py_slice p filenameIndex (filenameIndex + 1) \<noteq> [46]
            then (take (nat dotIndex) p, drop (nat dotIndex) p)
            else splitext_loop p (filenameIndex + 1) dotIndex)
      else (p, []))"
  by pat_completeness auto
termination
  by (relation "measure (\<lambda>(p, filenameIndex, dotIndex). nat (dotIndex - filenameIndex))") auto

declare splitext_loop.simps [simp del]

definition splitext :: "pystr \<Rightarrow> pystr \<times> pystr" where
  "splitext p =
     (let sepIndex = py_rfind p 47;
          dotIndex = py_rfind p 46
      in if dotIndex > sepIndex then splitext_loop p (sepIndex + 1) dotIndex else (p, []))"

definition supported_extensions :: "pystr list" where
  "supported_extensions = [py ''.pdf'', py ''.docx'', py ''.txt'']"

text \<open>
  \<open>validate_file(filename, file_size)\<close>. No step of the body raises on a string and an
  integer, so the handler that returns \<open>False\<close> is not reached.
\<close>

definition validate_file :: "(pystr \<Rightarrow> pystr) \<Rightarrow> pystr \<Rightarrow> int \<Rightarrow> bool" where
  "validate_file lower fname file_size =
     (let file_ext = lower (snd (splitext fname));
          max_size = 50 * 1024 * 1024
      in if file_ext \<notin> set supported_extensions then False
         else if file_size > max_size then False
         else True)"

section \<open>Properties of chunking\<close>

lemma py_space: "py '' '' = [32]"
  by (simp add: py_def)

lemma py_slice_same: "py_slice xs i i = []"
  by (simp add: py_slice_def Let_def)

lemma kept_zero: "\<not> kept 0 words i"
  by (simp add: kept_def window_text_def py_slice_same py_strip_def)

lemma chunk_window_eq:
  "chunk_window W doc fname words i =
     (if kept W words i then Inr (Some (window_chunk W doc fname words i)) else Inr None)"
  using kept_zero [of words i]
  by (auto simp add: chunk_window_def Let_def kept_def window_text_def window_chunk_def)

lemma chunk_loop_eq:
  "chunk_loop W doc fname words is acc =
     Inr (acc @ map (window_chunk W doc fname words) (filter (kept W words) is))"
  by (induction "is" arbitrary: acc) (simp_all add: chunk_window_eq)

lemma chunk_text_eq:
  "chunk_text W O' txt doc fname =
     (if W = O' then Inl ValueError
      else Inr (map (window_chunk W doc fname (py_split txt))
                  (filter (kept W (py_split txt)) (starts (length (py_split txt)) (W - O')))))"
  by (simp add: chunk_text_def Let_def py_range0_def chunk_loop_eq)

lemma starts_mem:
  assumes "0 < step"
  shows "i \<in> set (starts n step) \<longleftrightarrow> 0 \<le> i \<and> i < int n \<and> step dvd i"
proof
  assume "i \<in> set (starts n step)"
  then obtain k where k: "i = int k * step" "k < nat ((int n + step - 1) div step)"
    using assms by (auto simp add: starts_def)
  define q where "q = (int n + step - 1) div step"
  from k(2) have "int k + 1 \<le> q" unfolding q_def by linarith
  then have "(int k + 1) * step \<le> q * step"
    using assms by (simp add: mult_right_mono)
  also have "q * step \<le> int n + step - 1"
    unfolding q_def using assms
    by (metis mult.commute mult_div_mod_eq pos_mod_sign le_add_same_cancel1 add.commute)
  finally show "0 \<le> i \<and> i < int n \<and> step dvd i"
    using k(1) assms by (simp add: algebra_simps)
next
  assume a: "0 \<le> i \<and> i < int n \<and> step dvd i"
  then obtain q where "i = step * q" by (auto simp: dvd_def)
  then have q: "i = q * step" by simp
  with a assms have q0: "0 \<le> q"
    by (simp add: zero_le_mult_iff)
  have "(q + 1) * step \<le> int n + step - 1"
    using a q by (simp add: algebra_simps)
  then have "((q + 1) * step) div step \<le> (int n + step - 1) div step"
    using assms by (intro zdiv_mono1) simp_all
  then have "q + 1 \<le> (int n + step - 1) div step"
    using assms by simp
  then have "nat q < nat ((int n + step - 1) div step)"
    using q0 by linarith
  moreover have "i = int (nat q) * step"
    using q q0 by simp
  ultimately show "i \<in> set (starts n step)"
    using assms by (auto simp add: starts_def intro!: image_eqI [where x = "nat q"])
qed

lemma starts_strict: "sorted_wrt (<) (starts n step)"
  by (simp add: starts_def sorted_wrt_map sorted_wrt_iff_nth_less)

lemma starts_small:
  assumes "0 < step" "0 < n" "int n \<le> step"
  shows "starts n step = [0]"
proof -
  have "(int n + step - 1) div step = 1"
    using assms by (simp add: div_pos_geq div_pos_pos_trivial)
  then show ?thesis using assms by (simp add: starts_def)
qed

lemma starts_empty: "starts 0 step = []"
  by (simp add: starts_def div_pos_pos_trivial)

lemma split_scan_words:
  assumes "\<forall>c\<in>set w. \<not> isspace c"
  shows "\<forall>v\<in>set (split_scan w s). v \<noteq> [] \<and> (\<forall>c\<in>set v. \<not> isspace c)"
  using assms
proof (induction s arbitrary: w)
  case Nil
  then show ?case by simp
next
  case (Cons c cs)
  have e: "\<forall>v\<in>set (split_scan [] cs). v \<noteq> [] \<and> (\<forall>c\<in>set v. \<not> isspace c)"
    by (rule Cons.IH) simp
  show ?case
  proof (cases "isspace c")
    case True
    then show ?thesis using e Cons.prems by auto
  next
    case False
    have "\<forall>v\<in>set (split_scan (w @ [c]) cs). v \<noteq> [] \<and> (\<forall>c\<in>set v. \<not> isspace c)"
      by (rule Cons.IH) (use False Cons.prems in auto)
    then show ?thesis using False by simp
  qed
qed

lemma py_split_words:
  "v \<in> set (py_split s) \<Longrightarrow> v \<noteq> [] \<and> (\<forall>c\<in>set v. \<not> isspace c)"
  using split_scan_words [of "[]" s] by (simp add: py_split_def)

lemma wordlike_split: "wordlike (py_split s)"
  using py_split_words by (auto simp add: wordlike_def)

lemma wordlike_slice: "wordlike ws \<Longrightarrow> wordlike (py_slice ws i j)"
  by (auto simp add: wordlike_def py_slice_def Let_def dest!: in_set_takeD in_set_dropD)

lemma join_nonempty: "wordlike ws \<Longrightarrow> ws \<noteq> [] \<Longrightarrow> py_join sep ws \<noteq> []"
  by (induction sep ws rule: py_join.induct) (auto simp add: wordlike_def)

lemma join_hd: "wordlike ws \<Longrightarrow> ws \<noteq> [] \<Longrightarrow> hd (py_join sep ws) = hd (hd ws)"
  by (induction sep ws rule: py_join.induct) (auto simp add: wordlike_def)

lemma wordlike_Cons: "wordlike (w # ws) \<longleftrightarrow> w \<noteq> [] \<and> (\<forall>c\<in>set w. \<not> isspace c) \<and> wordlike ws"
  by (auto simp add: wordlike_def)

lemma join_last: "wordlike ws \<Longrightarrow> ws \<noteq> [] \<Longrightarrow> last (py_join sep ws) = last (last ws)"
proof (induction sep ws rule: py_join.induct)
  case (3 sep w v ws)
  then have "py_join sep (v # ws) \<noteq> []"
    by (intro join_nonempty) (simp_all add: wordlike_Cons)
  with 3 show ?case by (simp add: wordlike_Cons)
qed simp_all

lemma strip_id:
  assumes "s \<noteq> []" "\<not> isspace (hd s)" "\<not> isspace (last s)"
  shows "py_strip s = s"
proof -
  have "dropWhile isspace s = s"
    using assms by (cases s) auto
  moreover have "dropWhile isspace (rev s) = rev s"
    using assms by (cases "rev s") (auto simp add: last_rev [symmetric] simp del: last_rev)
  ultimately show ?thesis by (simp add: py_strip_def)
qed

lemma strip_join:
  assumes "wordlike ws"
  shows "py_strip (py_join [32] ws) = py_join [32] ws"
proof (cases "ws = []")
  case True
  then show ?thesis by (simp add: py_strip_def)
next
  case False
  have h: "hd ws \<in> set ws" "last ws \<in> set ws" using False by simp_all
  then have "\<not> isspace (hd (hd ws))" "\<not> isspace (last (last ws))"
    using assms by (auto simp add: wordlike_def)
  then show ?thesis
    using join_hd [OF assms False] join_last [OF assms False] join_nonempty [OF assms False]
    by (intro strip_id) simp_all
qed

lemma join_length:
  "wordlike ws \<Longrightarrow> 2 * length ws \<le> length (py_join [32] ws) + 1"
proof (induction "[32::nat]" ws rule: py_join.induct)
  case 1
  then show ?case by simp
next
  case (2 w)
  then have "w \<noteq> []" by (simp add: wordlike_Cons)
  then show ?case by (cases w) simp_all
next
  case (3 w v ws)
  then have "w \<noteq> []" "2 * length (v # ws) \<le> length (py_join [32] (v # ws)) + 1"
    by (simp_all add: wordlike_Cons)
  then show ?case by (cases w) simp_all
qed

lemma join_length_suffix:
  "length (py_join sep (drop k ws)) \<le> length (py_join sep ws)"
proof (induction sep ws arbitrary: k rule: py_join.induct)
  case (3 sep w v ws)
  show ?case
  proof (cases k)
    case 0 then show ?thesis by simp
  next
    case (Suc j)
    have "length (py_join sep (drop j (v # ws))) \<le> length (py_join sep (v # ws))"
      by (rule "3.IH")
    then show ?thesis using Suc by simp
  qed
next
  case (2 sep w)
  show ?case by (cases k) simp_all
qed simp

lemma slice_length:
  assumes "0 \<le> i" "i \<le> int (length ws)" "0 \<le> W"
  shows "int (length (py_slice ws i (i + W))) = min (i + W) (int (length ws)) - i"
  using assms by (auto simp add: py_slice_def Let_def min_def)

lemma slice_tail:
  assumes "0 \<le> i" "i \<le> int (length ws)" "int (length ws) \<le> i + W"
  shows "py_slice ws i (i + W) = drop (nat i) ws"
  using assms by (auto simp add: py_slice_def Let_def min_def)

lemma slice_all:
  assumes "int (length ws) \<le> W"
  shows "py_slice ws 0 (0 + W) = ws"
  using assms by (auto simp add: py_slice_def Let_def min_def)

lemma kept_join:
  "wordlike ws \<Longrightarrow> kept W ws i \<longleftrightarrow> 50 \<le> length (py_join [32] (py_slice ws i (i + W)))"
  by (simp add: kept_def window_text_def py_space strip_join wordlike_slice)

lemma kept_long:
  assumes "wordlike ws" "0 \<le> i" "i \<le> int (length ws)" "0 \<le> W"
      and "26 \<le> min (i + W) (int (length ws)) - i"
  shows "kept W ws i"
proof -
  have "26 \<le> length (py_slice ws i (i + W))"
    using slice_length [OF assms(2-4)] assms(5) by linarith
  moreover have "2 * length (py_slice ws i (i + W)) \<le> length (py_join [32] (py_slice ws i (i + W))) + 1"
    by (intro join_length wordlike_slice assms)
  ultimately show ?thesis
    using assms(1) by (simp add: kept_join)
qed

lemma kept_tail_mono:
  assumes "wordlike ws" "0 \<le> x" "x \<le> b" "b \<le> int (length ws)" "int (length ws) \<le> x + W"
      and "kept W ws b"
  shows "kept W ws x"
proof -
  have x: "py_slice ws x (x + W) = drop (nat x) ws"
    using assms by (intro slice_tail) simp_all
  have b: "py_slice ws b (b + W) = drop (nat b) ws"
    using assms by (intro slice_tail) simp_all
  have "drop (nat b) ws = drop (nat (b - x)) (drop (nat x) ws)"
    using assms by (simp add: nat_diff_distrib)
  then have "length (py_join [32] (drop (nat b) ws)) \<le> length (py_join [32] (drop (nat x) ws))"
    using join_length_suffix [of "[32]" "nat (b - x)" "drop (nat x) ws"] by simp
  then show ?thesis
    using assms(1,6) by (simp add: kept_join x b)
qed

lemma span_window_chunk: "span (window_chunk W doc fname ws i) = (i, min (i + W) (int (length ws)))"
  by (simp add: span_def window_chunk_def)

lemma filter_adjacent:
  assumes "sorted_wrt (<) (xs :: int list)" "Suc k < length (filter P xs)"
  shows "filter P xs ! k < filter P xs ! Suc k"
    and "filter P xs ! k \<in> set xs" and "filter P xs ! Suc k \<in> set xs"
    and "P (filter P xs ! Suc k)"
    and "\<And>x. x \<in> set xs \<Longrightarrow> filter P xs ! k < x \<Longrightarrow> x < filter P xs ! Suc k \<Longrightarrow> \<not> P x"
proof -
  let ?F = "filter P xs"
  have s: "sorted_wrt (<) ?F" using assms(1) by (rule sorted_wrt_filter)
  show "?F ! k < ?F ! Suc k"
    using s assms(2) by (simp add: sorted_wrt_iff_nth_less)
  have "?F ! k \<in> set ?F" "?F ! Suc k \<in> set ?F"
    using assms(2) by (simp_all only: nth_mem Suc_lessD)
  then show "?F ! k \<in> set xs" "?F ! Suc k \<in> set xs" "P (?F ! Suc k)"
    by simp_all
  fix x assume x: "x \<in> set xs" "?F ! k < x" "x < ?F ! Suc k"
  show "\<not> P x"
  proof
    assume "P x"
    with x(1) have "x \<in> set ?F" by simp
    then obtain j where j: "j < length ?F" "?F ! j = x"
      by (metis in_set_conv_nth)
    have mono: "?F ! a \<le> ?F ! b" if "a \<le> b" "b < length ?F" for a b
    proof (cases "a = b")
      case True
      then show ?thesis by simp
    next
      case False
      with that have "a < b" by simp
      then have "?F ! a < ?F ! b"
        using s that(2) by (simp add: sorted_wrt_iff_nth_less)
      then show ?thesis by simp
    qed
    have "k < j"
    proof (rule ccontr)
      assume "\<not> k < j"
      then have "?F ! j \<le> ?F ! k" using mono [of j k] assms(2) by simp
      with x(2) j(2) show False by simp
    qed
    moreover have "j < Suc k"
    proof (rule ccontr)
      assume "\<not> j < Suc k"
      then have "?F ! Suc k \<le> ?F ! j" using mono [of "Suc k" j] j(1) by simp
      with x(3) j(2) show False by simp
    qed
    ultimately show False by simp
  qed
qed

lemma chunk_text_total:
  "W \<noteq> O' \<Longrightarrow> \<exists>cs. chunk_text W O' txt doc fname = Inr cs"
  by (simp add: chunk_text_eq)

lemma chunk_text_cases:
  assumes "chunk_text W O' txt doc fname = Inr cs" "c \<in> set cs"
  obtains i where "c = window_chunk W doc fname (py_split txt) i"
    "i \<in> set (starts (length (py_split txt)) (W - O'))" "kept W (py_split txt) i"
  using assms by (auto simp add: chunk_text_eq split: if_splits)

lemma starts_nonempty_step: "i \<in> set (starts n step) \<Longrightarrow> 0 < step"
  by (auto simp add: starts_def split: if_splits)

lemma split_words_text: "py_split (words_text n) = replicate n (py ''word'')"
proof -
  have "split_scan [] (concat (replicate n (py ''word ''))) = replicate n (py ''word'')"
    by (induction n) (simp_all add: py_def isspace_def)
  then show ?thesis by (simp add: py_split_def words_text_def)
qed

lemma length_words_text: "length (py_split (words_text n)) = n"
  by (simp add: split_words_text)

lemma chunks_all_kept:
  assumes "W \<noteq> O'" "0 \<le> W"
      and "\<forall>i\<in>set (starts (length (py_split txt)) (W - O')).
             26 \<le> min (i + W) (int (length (py_split txt))) - i"
  shows "chunk_text W O' txt doc fname =
           Inr (map (window_chunk W doc fname (py_split txt))
                  (starts (length (py_split txt)) (W - O')))"
proof -
  have "kept W (py_split txt) i" if i: "i \<in> set (starts (length (py_split txt)) (W - O'))" for i
  proof -
    have "0 < W - O'" using i by (rule starts_nonempty_step)
    then have "0 \<le> i" "i \<le> int (length (py_split txt))"
      using i starts_mem [of "W - O'" i] by simp_all
    then show ?thesis
      using assms i by (intro kept_long wordlike_split) simp_all
  qed
  then have "filter (kept W (py_split txt)) (starts (length (py_split txt)) (W - O')) =
             starts (length (py_split txt)) (W - O')"
    by (simp add: filter_id_conv)
  then show ?thesis using assms(1) by (simp add: chunk_text_eq)
qed

lemma starts_2500: "starts 2500 800 = [0, 800, 1600, 2400]"
  by (simp add: starts_def upt_rec)

lemma starts_900: "starts 900 800 = [0, 800]"
  by (simp add: starts_def upt_rec)

lemma starts_1100: "starts 1100 200 = [0, 200, 400, 600, 800, 1000]"
  by (simp add: starts_def upt_rec)

lemma chunks_2500:
  assumes "length (py_split txt) = 2500"
  shows "chunk_text 1000 200 txt doc fname =
           Inr (map (window_chunk 1000 doc fname (py_split txt)) [0, 800, 1600, 2400])"
  using chunks_all_kept [of 1000 200 "txt" doc fname] assms by (simp add: starts_2500)

lemma chunks_900:
  assumes "length (py_split txt) = 900"
  shows "chunk_text 1000 200 txt doc fname =
           Inr (map (window_chunk 1000 doc fname (py_split txt)) [0, 800])"
  using chunks_all_kept [of 1000 200 "txt" doc fname] assms by (simp add: starts_900)

lemma chunks_1100:
  assumes "length (py_split txt) = 1100"
  shows "chunk_text 1000 800 txt doc fname =
           Inr (map (window_chunk 1000 doc fname (py_split txt)) [0, 200, 400, 600, 800, 1000])"
  using chunks_all_kept [of 1000 800 "txt" doc fname] assms by (simp add: starts_1100)

lemma full_window_next:
  assumes O: "0 \<le> O'" "O' < W" and W: "26 \<le> W"
      and a: "a \<in> set (starts (length ws) (W - O'))" "a + W \<le> int (length ws)"
      and b: "b \<in> set (starts (length ws) (W - O'))" "a < b" "kept W ws b"
      and gap: "\<And>x. x \<in> set (starts (length ws) (W - O')) \<Longrightarrow> a < x \<Longrightarrow> x < b \<Longrightarrow> \<not> kept W ws x"
      and ws: "wordlike ws"
  shows "b = a + (W - O')"
proof -
  let ?s = "W - O'" and ?n = "int (length ws)"
  have s: "0 < ?s" using O by simp
  have am: "0 \<le> a" "a < ?n" "?s dvd a" using a(1) starts_mem [OF s] by simp_all
  have bm: "0 \<le> b" "b < ?n" "?s dvd b" using b(1) starts_mem [OF s] by simp_all
  have "?s dvd (b - a)" using bm(3) am(3) by (rule dvd_diff)
  then have ge: "a + ?s \<le> b"
    using b(2) s zdvd_imp_le [of ?s "b - a"] by simp
  show ?thesis
  proof (rule ccontr)
    assume "b \<noteq> a + ?s"
    with ge have lt: "a + ?s < b" by simp
    let ?x = "a + ?s"
    have "?s dvd ?x" using am(3) by simp
    moreover have "0 \<le> ?x" "?x < ?n" using am(1) s lt bm(2) by simp_all
    ultimately have xs: "?x \<in> set (starts (length ws) ?s)"
      by (simp only: starts_mem [OF s] simp_thms)
    have "a < ?x" using s by simp
    with xs have nk: "\<not> kept W ws ?x"
      using lt by (intro gap)
    show False
    proof (cases "?x + W \<le> ?n")
      case True
      have "0 \<le> ?x" "?x \<le> ?n" "0 \<le> W" "26 \<le> min (?x + W) ?n - ?x"
        using am(1) s True W by simp_all
      with ws have "kept W ws ?x" by (rule kept_long)
      with nk show False by simp
    next
      case False
      have "0 \<le> ?x" "?x \<le> b" "b \<le> ?n" "?n \<le> ?x + W"
        using am(1) s lt bm(2) False by simp_all
      with ws have "kept W ws ?x" using b(3) by (rule kept_tail_mono)
      with nk show False by simp
    qed
  qed
qed

lemma length_py: "length (py s) = length s"
  by (simp add: py_def)

lemma split_sample:
  "py_split sample_text =
     [py ''the'', py ''quick'', py ''brown'', py ''fox'', py ''jumps'', py ''over'', py ''the'',
      py ''lazy'', py ''dog'', py ''and'', py ''then'', py ''runs'', py ''far'', py ''away'',
      py ''into'', py ''the'', py ''deep'', py ''green'', py ''forest'', py ''tonight'']"
  by (simp add: sample_text_def py_split_def py_def isspace_def)

lemma offsets_window_chunk:
  "offsets (window_chunk W doc fname ws i) =
     (i, min (i + W) (int (length ws)), int (length (py_slice ws i (i + W))))"
  by (simp add: offsets_def window_chunk_def)

lemma starts_sample: "starts 20 8 = [0, 8, 16]"
  by (simp add: starts_def upt_rec)

lemma kept_sample:
  "kept 12 (py_split sample_text) 0" "kept 12 (py_split sample_text) 8"
  "\<not> kept 12 (py_split sample_text) 16"
  unfolding kept_join [OF wordlike_split]
  by (simp_all add: split_sample py_slice_def length_py)

lemma chunks_sample:
  "chunk_text 12 4 sample_text doc fname =
     Inr (map (window_chunk 12 doc fname (py_split sample_text)) [0, 8])"
proof -
  have "length (py_split sample_text) = 20" by (simp add: split_sample)
  then have "filter (kept 12 (py_split sample_text)) (starts (length (py_split sample_text)) (12 - 4)) = [0, 8]"
    by (simp add: starts_sample kept_sample)
  then show ?thesis by (simp add: chunk_text_eq)
qed

lemma split_long_words:
  "py_split long_words_text =
     [py ''aaaaaaaaaaaaaaaaaaaaaaaaaaaaaa'', py ''bbbbbbbbbbbbbbbbbbbbbbbbbbbbbb'',
      py ''cccccccccccccccccccccccccccccc'']"
  by (simp add: long_words_text_def py_split_def py_def isspace_def)

lemma starts_long_words: "starts 3 1 = [0, 1, 2]"
  by (simp add: starts_def upt_rec)

lemma kept_long_words:
  "kept (- 1) (py_split long_words_text) 0" "\<not> kept (- 1) (py_split long_words_text) 1"
  "\<not> kept (- 1) (py_split long_words_text) 2"
  unfolding kept_join [OF wordlike_split]
  by (simp_all add: split_long_words py_slice_def length_py)

lemma chunks_long_words:
  "chunk_text (- 1) (- 2) long_words_text doc fname =
     Inr (map (window_chunk (- 1) doc fname (py_split long_words_text)) [0])"
proof -
  have "length (py_split long_words_text) = 3" by (simp add: split_long_words)
  then have "filter (kept (- 1) (py_split long_words_text))
               (starts (length (py_split long_words_text)) (- 1 - (- 2))) = [0]"
    by (simp add: starts_long_words kept_long_words)
  then show ?thesis by (simp add: chunk_text_eq)
qed

lemma split_gap:
  "py_split gap_text =
     [py ''aaaaaaaaaaaaaaaaaaaaaaaaaaaaaa'', py ''bbbbbbbbbbbbbbbbbbbbbbbbbbbbbb'', py ''c'', py ''d'',
      py ''eeeeeeeeeeeeeeeeeeeeeeeeeeeeee'', py ''ffffffffffffffffffffffffffffff'']"
  by (simp add: gap_text_def py_split_def py_def isspace_def)

lemma starts_gap: "starts 6 1 = [0, 1, 2, 3, 4, 5]"
  by (simp add: starts_def upt_rec)

lemma kept_gap:
  "kept 2 (py_split gap_text) 0" "\<not> kept 2 (py_split gap_text) 1"
  "\<not> kept 2 (py_split gap_text) 2" "\<not> kept 2 (py_split gap_text) 3"
  "kept 2 (py_split gap_text) 4" "\<not> kept 2 (py_split gap_text) 5"
  unfolding kept_join [OF wordlike_split]
  by (simp_all add: split_gap py_slice_def length_py)

lemma chunks_gap:
  "chunk_text 2 1 gap_text doc fname =
     Inr (map (window_chunk 2 doc fname (py_split gap_text)) [0, 4])"
proof -
  have "length (py_split gap_text) = 6" by (simp add: split_gap)
  then have "filter (kept 2 (py_split gap_text)) (starts (length (py_split gap_text)) (2 - 1)) = [0, 4]"
    by (simp add: starts_gap kept_gap)
  then show ?thesis by (simp add: chunk_text_eq)
qed

lemma starts_next:
  assumes "a \<in> set (starts n s)" "b \<in> set (starts n s)" "a < b"
  shows "a + s \<le> b"
proof -
  have s: "0 < s" using assms(1) by (rule starts_nonempty_step)
  have "s dvd a" "s dvd b" using assms(1,2) starts_mem [OF s] by simp_all
  then have "s dvd (b - a)" by (simp add: dvd_diff)
  then show ?thesis
    using assms(3) s zdvd_imp_le [of s "b - a"] by simp
qed

lemma offsets_window:
  assumes "0 \<le> i" "i \<le> int (length ws)" "0 \<le> W"
  shows "offsets (window_chunk W doc fname ws i) =
           (i, min (i + W) (int (length ws)), min (i + W) (int (length ws)) - i)"
  using slice_length [OF assms] by (simp add: offsets_window_chunk)

lemma pair_overlap:
  assumes O: "0 \<le> O'" "O' < W" and W: "26 \<le> W"
      and cs: "chunk_text W O' txt doc fname = Inr cs"
      and k: "Suc k < length cs"
  shows "word_count (cs ! k) \<le> W \<and>
         (word_count (cs ! k) = W \<longrightarrow> overlap (cs ! k) (cs ! Suc k) = O') \<and>
         (word_count (cs ! k) < W \<longrightarrow> overlap (cs ! k) (cs ! Suc k) < O')"
proof -
  let ?ws = "py_split txt"
  let ?n = "int (length ?ws)"
  let ?S = "starts (length ?ws) (W - O')"
  let ?F = "filter (kept W ?ws) ?S"
  let ?a = "?F ! k" and ?b = "?F ! Suc k"
  have s: "0 < W - O'" using O by simp
  have eq: "cs = map (window_chunk W doc fname ?ws) ?F"
    using O cs by (simp add: chunk_text_eq)
  then have len: "Suc k < length ?F" using k by simp
  have str: "sorted_wrt (<) ?S" by (rule starts_strict)
  note adj = filter_adjacent [OF str len]
  have ck: "cs ! k = window_chunk W doc fname ?ws ?a"
    and cSk: "cs ! Suc k = window_chunk W doc fname ?ws ?b"
    using len by (simp_all add: eq)
  have am: "0 \<le> ?a" "?a < ?n"
    using adj(2) starts_mem [OF s] by simp_all
  have "int (length (py_slice ?ws ?a (?a + W))) = min (?a + W) ?n - ?a"
    using am W by (intro slice_length) simp_all
  then have wc: "word_count (cs ! k) = min (?a + W) ?n - ?a"
    by (simp add: ck window_chunk_def)
  have ov: "overlap (cs ! k) (cs ! Suc k) = min (?a + W) ?n - ?b"
    by (simp add: overlap_def ck cSk window_chunk_def)
  have ge: "?a + (W - O') \<le> ?b"
    using adj(2) adj(3) adj(1) by (rule starts_next)
  have c1: "word_count (cs ! k) \<le> W"
    using wc by simp
  have c2: "overlap (cs ! k) (cs ! Suc k) = O'" if "word_count (cs ! k) = W"
  proof -
    from that wc have full: "?a + W \<le> ?n" by linarith
    have "?b = ?a + (W - O')"
      using O W adj(2) full adj(3) adj(1) adj(4) adj(5) wordlike_split
      by (rule full_window_next)
    then show ?thesis using ov full by simp
  qed
  have c3: "overlap (cs ! k) (cs ! Suc k) < O'" if "word_count (cs ! k) < W"
  proof -
    from that wc have "?n < ?a + W" by linarith
    then show ?thesis using ov ge by simp
  qed
  from c1 c2 c3 show ?thesis by blast
qed

lemma offsets_2500:
  "map offsets (map (window_chunk 1000 doc fname (py_split (words_text 2500))) [0, 800, 1600, 2400]) =
     [(0, 1000, 1000), (800, 1800, 1000), (1600, 2500, 900), (2400, 2500, 100)]"
  by (simp add: offsets_window length_words_text)

section \<open>Properties of file validation\<close>

lemma splitext_report: "splitext (py ''Report.PDF'') = (py ''Report'', py ''.PDF'')"
  by (simp add: splitext_def py_rfind_def splitext_loop.simps py_slice_def py_def)

lemma splitext_hidden: "splitext (py ''.pdf'') = (py ''.pdf'', [])"
  by (simp add: splitext_def py_rfind_def splitext_loop.simps py_slice_def py_def)

lemma validate_file_examples:
  "validate_file ascii_lower (py ''Report.PDF'') 52428800"
  "\<not> validate_file ascii_lower (py ''Report.PDF'') 52428801"
  "\<not> validate_file ascii_lower (py ''.pdf'') 10"
  by (simp_all add: validate_file_def Let_def supported_extensions_def splitext_report
        splitext_hidden) (simp_all add: py_def ascii_lower_def)

section \<open>Properties of the query pipeline\<close>

lemma sample_query_valid: "sample_query \<noteq> []" "3 \<le> length (py_strip sample_query)"
  by (simp_all add: sample_query_def py_def py_strip_def isspace_def)

lemma make_sources_sample:
  "make_sources [sample_hit] =
     Inr [\<lparr> src_filename = MStr (py ''a.txt''), src_chunk_index = MInt 0,
            src_distance = Some (), text_preview = hit_text sample_hit \<rparr>]"
  by (simp add: make_source_def sample_hit_def py_def)

lemma process_query_store_raises:
  assumes "query \<noteq> []" "3 \<le> length (py_strip query)"
      and "collection_query svc query n = Inl e"
  shows "process_query svc query n =
           (Failure (py ''No relevant documents found for your query''), [Query query n])"
  using assms by (simp add: process_query_def search_similar_def)

lemma process_query_store_empty:
  assumes "query \<noteq> []" "3 \<le> length (py_strip query)"
      and "collection_query svc query n = Inr []"
  shows "process_query svc query n =
           (Failure (py ''No relevant documents found for your query''), [Query query n])"
  using assms by (simp add: process_query_def search_similar_def)

lemma process_query_model_raises:
  assumes "query \<noteq> []" "3 \<le> length (py_strip query)"
      and "collection_query svc query n = Inr hits" "hits \<noteq> []"
      and "make_sources hits = Inr srcs"
      and "generate_content svc (build_prompt query (map hit_text hits)) = Inl e"
  shows "process_query svc query n =
           (Success query (py ''An error occurred while generating the response: '' @ str_exn e)
              srcs (length hits),
            [Query query n, Generate (build_prompt query (map hit_text hits))])"
  using assms
  by (simp add: process_query_def search_similar_def generate_response_def Let_def)

section \<open>Properties of deletion\<close>

lemma digits_nonempty: "digits k \<noteq> []"
  by (subst digits.simps) simp

lemma digits_inj: "digits a = digits b \<Longrightarrow> a = b"
proof (induction a arbitrary: b rule: digits.induct)
  case (1 a)
  show ?case
  proof (cases "a < 10")
    case a: True
    show ?thesis
    proof (cases "b < 10")
      case True
      with a "1.prems" show ?thesis by (simp add: digits.simps [of a] digits.simps [of b])
    next
      case False
      with a "1.prems" digits_nonempty [of "b div 10"] show ?thesis
        by (simp add: digits.simps [of a] digits.simps [of b])
    qed
  next
    case a: False
    show ?thesis
    proof (cases "b < 10")
      case True
      with a "1.prems" digits_nonempty [of "a div 10"] show ?thesis
        by (simp add: digits.simps [of a] digits.simps [of b])
    next
      case False
      with a "1.prems" have e: "digits (a div 10) = digits (b div 10)" "a mod 10 = b mod 10"
        by (simp_all add: digits.simps [of a] digits.simps [of b])
      from a e(1) have "a div 10 = b div 10" by (rule "1.IH")
      with e(2) show ?thesis by (metis div_mult_mod_eq)
    qed
  qed
qed

lemma stored_chunk_id_inj:
  "entry_id (stored_chunk d a) = entry_id (stored_chunk d b) \<Longrightarrow> a = b"
  by (auto simp add: stored_chunk_def py_str_def dest: digits_inj)

lemma distinct_stored_ids: "distinct (map entry_id (stored_chunks d n))"
  by (auto simp add: stored_chunks_def distinct_map inj_on_def dest: stored_chunk_id_inj)

lemma matches_stored_chunk: "matches d (stored_chunk d k)"
  by (simp add: matches_def stored_chunk_def py_def)

lemma filter_not_taken:
  assumes "distinct (map f xs)"
  shows "filter (\<lambda>e. f e \<notin> f ` set (take k xs)) xs = drop k xs"
proof -
  have "distinct (map f (take k xs) @ map f (drop k xs))"
    using assms by (simp flip: map_append)
  then have d: "set (map f (take k xs)) \<inter> set (map f (drop k xs)) = {}"
    by simp
  have "filter (\<lambda>e. f e \<notin> set (map f (take k xs))) (take k xs) = []"
    by (simp add: filter_empty_conv)
  moreover have "filter (\<lambda>e. f e \<notin> set (map f (take k xs))) (drop k xs) = drop k xs"
    using d by (auto simp add: filter_id_conv)
  ultimately have "filter (\<lambda>e. f e \<notin> set (map f (take k xs))) (take k xs @ drop k xs) = drop k xs"
    by (simp only: filter_append append_Nil)
  then show ?thesis by simp
qed

lemma upt_last_chunk: "[1000 ..< 1001] = [1000::nat]"
  using upt_conv_Cons [of 1000 1001] by simp

lemma delete_stored_chunks:
  "delete_document_chunks (chroma_query (\<lambda>q xs. xs)) chroma_delete (stored_chunks d n) d =
     drop 1000 (stored_chunks d n)"
proof -
  have "filter (matches d) (stored_chunks d n) = stored_chunks d n"
    by (simp add: stored_chunks_def filter_id_conv matches_stored_chunk)
  then show ?thesis
    by (simp add: delete_document_chunks_def chroma_query_def chroma_delete_def
          filter_not_taken [OF distinct_stored_ids])
qed

section \<open>The claims about chunking\<close>

text \<open>
  C5. Whenever chunking returns (the stride \<open>W - O\<close> is not zero, so \<open>range\<close> does not
  raise), every chunk of the output has a trimmed text of at least 50 characters, and
  every window offset whose joined text has a trimmed length below 50 is the start offset
  of no chunk of the output.
\<close>

theorem short_windows_dropped:
  assumes "W \<noteq> O'"
  shows "\<exists>cs. chunk_text W O' txt doc fname = Inr cs \<and>
           (\<forall>c\<in>set cs. 50 \<le> length (py_strip (ctext c))) \<and>
           (\<forall>i\<in>set (starts (length (py_split txt)) (W - O')).
              length (py_strip (window_text W (py_split txt) i)) < 50 \<longrightarrow>
              i \<notin> start_word_index ` set cs)"
  using assms
  by (auto simp add: chunk_text_eq kept_def window_chunk_def)

theorem short_windows_dropped_witness:
  "\<exists>cs. chunk_text 3 1 (py ''alpha beta gamma delta epsilon zeta eta theta iota kappa lambda mu'') (py ''d1'') (py ''a.txt'') = Inr cs \<and>
     (\<forall>c\<in>set cs. 50 \<le> length (py_strip (ctext c))) \<and>
     (\<forall>i\<in>set (starts (length (py_split (py ''alpha beta gamma delta epsilon zeta eta theta iota kappa lambda mu''))) (3 - 1)).
        length (py_strip (window_text 3 (py_split (py ''alpha beta gamma delta epsilon zeta eta theta iota kappa lambda mu'')) i)) < 50 \<longrightarrow>
        i \<notin> start_word_index ` set cs)"
  using short_windows_dropped [of 3 1] by simp

text \<open>
  C10, as the code has it. For a window size \<open>W \<ge> 0\<close> with \<open>W \<noteq> O\<close> and a text of \<open>n\<close>
  words, chunking returns, and every chunk starts at a multiple of the stride \<open>W - O\<close>,
  ends at \<open>min (start + W) n\<close>, counts \<open>end - start\<close> words and ends no later than \<open>n\<close>.
  For a negative window size the slice \<open>words[i:i + W]\<close> counts its end from the end of
  the list: with \<open>W = -1\<close> and \<open>O = -2\<close> three words of 30 letters give one chunk with start
  offset 0, end offset \<open>-1\<close> and 2 words.
\<close>

theorem chunk_offsets:
  assumes "0 \<le> W" "W \<noteq> O'"
  shows "\<exists>cs. chunk_text W O' txt doc fname = Inr cs \<and>
           (\<forall>c\<in>set cs.
              (W - O') dvd start_word_index c \<and>
              end_word_index c = min (start_word_index c + W) (int (length (py_split txt))) \<and>
              word_count c = end_word_index c - start_word_index c \<and>
              end_word_index c \<le> int (length (py_split txt)))"
proof -
  obtain cs where cs: "chunk_text W O' txt doc fname = Inr cs"
    using chunk_text_total [OF assms(2)] by blast
  have "(W - O') dvd start_word_index c \<and>
        end_word_index c = min (start_word_index c + W) (int (length (py_split txt))) \<and>
        word_count c = end_word_index c - start_word_index c \<and>
        end_word_index c \<le> int (length (py_split txt))" if cmem: "c \<in> set cs" for c
  proof -
    obtain i where i: "c = window_chunk W doc fname (py_split txt) i"
      "i \<in> set (starts (length (py_split txt)) (W - O'))"
      using chunk_text_cases [OF cs cmem] by blast
    have step: "0 < W - O'" using i(2) by (rule starts_nonempty_step)
    have m: "0 \<le> i" "i < int (length (py_split txt))" "(W - O') dvd i"
      using i(2) starts_mem [OF step] by simp_all
    have "int (length (py_slice (py_split txt) i (i + W))) = min (i + W) (int (length (py_split txt))) - i"
      using m assms(1) by (intro slice_length) simp_all
    then show ?thesis
      using m by (simp add: i(1) window_chunk_def)
  qed
  with cs show ?thesis by blast
qed

theorem chunk_offsets_witness:
  "(0::int) \<le> 12 \<and> (12::int) \<noteq> 4 \<and>
   (\<exists>cs. chunk_text 12 4 sample_text (py ''d1'') (py ''a.txt'') = Inr cs \<and>
      map offsets cs = [(0, 12, 12), (8, 20, 12)] \<and>
      (\<forall>c\<in>set cs.
         (12 - 4) dvd start_word_index c \<and>
         end_word_index c = min (start_word_index c + 12) (int (length (py_split sample_text))) \<and>
         word_count c = end_word_index c - start_word_index c \<and>
         end_word_index c \<le> int (length (py_split sample_text))))"
proof -
  obtain cs where cs: "chunk_text 12 4 sample_text (py ''d1'') (py ''a.txt'') = Inr cs"
    and all: "\<forall>c\<in>set cs.
         (12 - 4) dvd start_word_index c \<and>
         end_word_index c = min (start_word_index c + 12) (int (length (py_split sample_text))) \<and>
         word_count c = end_word_index c - start_word_index c \<and>
         end_word_index c \<le> int (length (py_split sample_text))"
    using chunk_offsets [of 12 4 sample_text "py ''d1''" "py ''a.txt''"] by auto
  have "map_sum id (map offsets) (chunk_text 12 4 sample_text (py ''d1'') (py ''a.txt'')) =
     Inr [(0, 12, 12), (8, 20, 12)]"
    by (simp add: chunks_sample offsets_window_chunk split_sample py_slice_def)
  then have m: "map offsets cs = [(0, 12, 12), (8, 20, 12)]"
    by (simp add: cs)
  have h: "(0::int) \<le> 12" "(12::int) \<noteq> 4" by simp_all
  from cs m all have "\<exists>cs. chunk_text 12 4 sample_text (py ''d1'') (py ''a.txt'') = Inr cs \<and>
      map offsets cs = [(0, 12, 12), (8, 20, 12)] \<and>
      (\<forall>c\<in>set cs.
         (12 - 4) dvd start_word_index c \<and>
         end_word_index c = min (start_word_index c + 12) (int (length (py_split sample_text))) \<and>
         word_count c = end_word_index c - start_word_index c \<and>
         end_word_index c \<le> int (length (py_split sample_text)))"
    by (intro exI [of _ cs] conjI)
  with h show ?thesis by (intro conjI)
qed

theorem chunk_offsets_counterexample:
  "map_sum id (map offsets) (chunk_text (- 1) (- 2) long_words_text (py ''d1'') (py ''a.txt'')) =
     Inr [(0, - 1, 2)]"
  by (simp add: chunks_long_words offsets_window_chunk split_long_words py_slice_def)

text \<open>
  C1, as the code has it. With \<open>W = 1000\<close> and \<open>O = 200\<close>, a text of exactly 2500 words
  yields four chunks, not three: the loop also visits offset 2400, whose window of 100
  words is long enough to be kept. The spans are \<open>[0,1000)\<close>, \<open>[800,1800)\<close>,
  \<open>[1600,2500)\<close> and \<open>[2400,2500)\<close>.
\<close>

theorem chunk_2500_words:
  assumes "length (py_split txt) = 2500"
  shows "\<exists>cs. chunk_text 1000 200 txt doc fname = Inr cs \<and>
           map span cs = [(0, 1000), (800, 1800), (1600, 2500), (2400, 2500)]"
  using assms by (simp add: chunks_2500 span_window_chunk)

theorem chunk_2500_words_witness:
  "length (py_split (words_text 2500)) = 2500 \<and>
   (\<exists>cs. chunk_text 1000 200 (words_text 2500) (py ''d1'') (py ''a.txt'') = Inr cs \<and>
      map span cs = [(0, 1000), (800, 1800), (1600, 2500), (2400, 2500)])"
  using chunk_2500_words [of "words_text 2500" "py ''d1''" "py ''a.txt''"]
  by (simp add: length_words_text)

theorem chunk_2500_words_counterexample:
  "length (py_split (words_text 2500)) = 2500 \<and>
   map_sum id (map span) (chunk_text 1000 200 (words_text 2500) (py ''d1'') (py ''a.txt'')) =
     Inr [(0, 1000), (800, 1800), (1600, 2500), (2400, 2500)] \<and>
   map_sum id (map span) (chunk_text 1000 200 (words_text 2500) (py ''d1'') (py ''a.txt'')) \<noteq>
     Inr [(0, 1000), (800, 1800), (1600, 2500)]"
  by (simp add: chunks_2500 length_words_text span_window_chunk)

text \<open>
  C2, as the code has it. A text of at most \<open>W - O\<close> words (with \<open>0 \<le> O < W\<close>) yields
  exactly one chunk when the joined, trimmed text of its words has at least 50 characters,
  and no chunk otherwise. A text of more than \<open>W - O\<close> but fewer than \<open>W\<close> words has a
  second window, as the 900 words of the counterexample show.
\<close>

theorem chunk_short_text:
  assumes "0 \<le> O'" "O' < W" "int (length (py_split txt)) \<le> W - O'"
  shows "\<exists>cs. chunk_text W O' txt doc fname = Inr cs \<and>
           length cs =
             (if 50 \<le> length (py_strip (py_join (py '' '') (py_split txt))) then 1 else 0)"
proof (cases "py_split txt = []")
  case True
  then show ?thesis
    using assms by (simp add: chunk_text_eq starts_empty py_strip_def)
next
  case False
  then have "starts (length (py_split txt)) (W - O') = [0]"
    using assms by (intro starts_small) simp_all
  moreover have "py_slice (py_split txt) 0 (0 + W) = py_split txt"
    using assms by (intro slice_all) simp
  ultimately show ?thesis
    using assms by (simp add: chunk_text_eq kept_def window_text_def)
qed

theorem chunk_short_text_counterexample:
  "int (length (py_split (words_text 900))) < 1000 \<and>
   50 \<le> length (py_strip (py_join (py '' '') (py_split (words_text 900)))) \<and>
   map_sum id (map span) (chunk_text 1000 200 (words_text 900) (py ''d1'') (py ''a.txt'')) =
     Inr [(0, 900), (800, 900)]"
proof -
  have w: "wordlike (py_split (words_text 900))" by (rule wordlike_split)
  have "2 * length (py_split (words_text 900)) \<le> length (py_join [32] (py_split (words_text 900))) + 1"
    using w by (rule join_length)
  then have "50 \<le> length (py_strip (py_join (py '' '') (py_split (words_text 900))))"
    using w by (simp add: py_space strip_join length_words_text)
  then show ?thesis
    by (simp add: chunks_900 length_words_text span_window_chunk)
qed

theorem chunk_short_text_witness:
  "(0::int) \<le> 200 \<and> (200::int) < 1000 \<and> int (length (py_split (words_text 30))) \<le> 1000 - 200 \<and>
   (\<exists>cs. chunk_text 1000 200 (words_text 30) (py ''d1'') (py ''a.txt'') = Inr cs \<and>
      length cs =
        (if 50 \<le> length (py_strip (py_join (py '' '') (py_split (words_text 30)))) then 1 else 0))"
  using chunk_short_text [of 200 1000 "words_text 30" "py ''d1''" "py ''a.txt''"]
  by (simp add: length_words_text)

text \<open>
  C4. With the default configuration a text of 900 words yields two chunks that both
  record \<open>chunk_index = 0\<close> and both carry the identifier \<open>d1_chunk_0\<close>: the index is
  \<open>i // chunk_size\<close>, not the position of the chunk in the output.
\<close>

theorem chunk_index_collision:
  "map_sum id (map (\<lambda>c. (chunk_index c, chunk_id c)))
     (chunk_text 1000 200 (words_text 900) (py ''d1'') (py ''a.txt'')) =
   Inr [(0, py ''d1_chunk_0''), (0, py ''d1_chunk_0'')]"
  by (simp add: chunks_900 length_words_text window_chunk_def py_def py_str_def digits.simps)

text \<open>
  C3, as the code has it. For \<open>0 \<le> O < W\<close> and \<open>W \<ge> 26\<close> chunking returns, and for every
  pair of consecutive chunks of the output the first chunk holds at most \<open>W\<close> words; when
  it holds exactly \<open>W\<close> words the two spans overlap by exactly \<open>O\<close> words; when it holds
  fewer (a window cut at the end of the text) they overlap by fewer than \<open>O\<close> words,
  whether or not the second chunk is the last one. With \<open>W = 1000\<close>, \<open>O = 800\<close> and 1100
  words the second and third of six chunks share 700 words. The bound \<open>W \<ge> 26\<close> keeps
  every full window above the minimum length: with \<open>W = 2\<close> and \<open>O = 1\<close> the windows between
  offsets 0 and 4 of the third sample text are dropped, and the two chunks that remain,
  both of two words, do not overlap at all.
\<close>

theorem consecutive_overlap:
  assumes "0 \<le> O'" "O' < W" "26 \<le> W"
  shows "\<exists>cs. chunk_text W O' txt doc fname = Inr cs \<and>
           (\<forall>k. Suc k < length cs \<longrightarrow>
              word_count (cs ! k) \<le> W \<and>
              (word_count (cs ! k) = W \<longrightarrow> overlap (cs ! k) (cs ! Suc k) = O') \<and>
              (word_count (cs ! k) < W \<longrightarrow> overlap (cs ! k) (cs ! Suc k) < O'))"
proof -
  have "W \<noteq> O'" using assms(2) by simp
  then obtain cs where cs: "chunk_text W O' txt doc fname = Inr cs"
    using chunk_text_total by blast
  have "\<forall>k. Suc k < length cs \<longrightarrow>
              word_count (cs ! k) \<le> W \<and>
              (word_count (cs ! k) = W \<longrightarrow> overlap (cs ! k) (cs ! Suc k) = O') \<and>
              (word_count (cs ! k) < W \<longrightarrow> overlap (cs ! k) (cs ! Suc k) < O')"
    using pair_overlap [OF assms cs] by blast
  with cs show ?thesis by blast
qed

theorem consecutive_overlap_witness:
  "(0::int) \<le> 200 \<and> (200::int) < 1000 \<and> (26::int) \<le> 1000 \<and>
   (\<exists>cs. chunk_text 1000 200 (words_text 2500) (py ''d1'') (py ''a.txt'') = Inr cs \<and>
      map offsets cs =
        [(0, 1000, 1000), (800, 1800, 1000), (1600, 2500, 900), (2400, 2500, 100)] \<and>
      (\<forall>k. Suc k < length cs \<longrightarrow>
         word_count (cs ! k) \<le> 1000 \<and>
         (word_count (cs ! k) = 1000 \<longrightarrow> overlap (cs ! k) (cs ! Suc k) = 200) \<and>
         (word_count (cs ! k) < 1000 \<longrightarrow> overlap (cs ! k) (cs ! Suc k) < 200)))"
proof -
  have h: "(0::int) \<le> 200" "(200::int) < 1000" "(26::int) \<le> 1000" by simp_all
  obtain cs where cs: "chunk_text 1000 200 (words_text 2500) (py ''d1'') (py ''a.txt'') = Inr cs"
    and all: "\<forall>k. Suc k < length cs \<longrightarrow>
         word_count (cs ! k) \<le> 1000 \<and>
         (word_count (cs ! k) = 1000 \<longrightarrow> overlap (cs ! k) (cs ! Suc k) = 200) \<and>
         (word_count (cs ! k) < 1000 \<longrightarrow> overlap (cs ! k) (cs ! Suc k) < 200)"
    using consecutive_overlap [OF h, of "words_text 2500" "py ''d1''" "py ''a.txt''"] by blast
  have "chunk_text 1000 200 (words_text 2500) (py ''d1'') (py ''a.txt'') =
      Inr (map (window_chunk 1000 (py ''d1'') (py ''a.txt'') (py_split (words_text 2500)))
             [0, 800, 1600, 2400])"
    by (rule chunks_2500) (rule length_words_text)
  with cs have "cs = map (window_chunk 1000 (py ''d1'') (py ''a.txt'') (py_split (words_text 2500)))
             [0, 800, 1600, 2400]"
    by simp
  then have m: "map offsets cs =
        [(0, 1000, 1000), (800, 1800, 1000), (1600, 2500, 900), (2400, 2500, 100)]"
    by (simp only: offsets_2500)
  from cs m all have "\<exists>cs. chunk_text 1000 200 (words_text 2500) (py ''d1'') (py ''a.txt'') = Inr cs \<and>
      map offsets cs =
        [(0, 1000, 1000), (800, 1800, 1000), (1600, 2500, 900), (2400, 2500, 100)] \<and>
      (\<forall>k. Suc k < length cs \<longrightarrow>
         word_count (cs ! k) \<le> 1000 \<and>
         (word_count (cs ! k) = 1000 \<longrightarrow> overlap (cs ! k) (cs ! Suc k) = 200) \<and>
         (word_count (cs ! k) < 1000 \<longrightarrow> overlap (cs ! k) (cs ! Suc k) < 200))"
    by (intro exI [of _ cs] conjI)
  with h show ?thesis by (intro conjI)
qed

theorem consecutive_overlap_counterexample:
  "map_sum id (map span) (chunk_text 1000 800 (words_text 1100) (py ''d1'') (py ''a.txt'')) =
     Inr [(0, 1000), (200, 1100), (400, 1100), (600, 1100), (800, 1100), (1000, 1100)] \<and>
   map_sum id (\<lambda>cs. overlap (cs ! 1) (cs ! 2))
     (chunk_text 1000 800 (words_text 1100) (py ''d1'') (py ''a.txt'')) = Inr 700 \<and>
   map_sum id (map offsets) (chunk_text 2 1 gap_text (py ''d1'') (py ''a.txt'')) =
     Inr [(0, 2, 2), (4, 6, 2)] \<and>
   map_sum id (\<lambda>cs. overlap (cs ! 0) (cs ! 1))
     (chunk_text 2 1 gap_text (py ''d1'') (py ''a.txt'')) = Inr (- 2)"
proof -
  have c: "chunk_text 1000 800 (words_text 1100) (py ''d1'') (py ''a.txt'') =
      Inr (map (window_chunk 1000 (py ''d1'') (py ''a.txt'') (py_split (words_text 1100)))
             [0, 200, 400, 600, 800, 1000])"
    by (rule chunks_1100) (simp add: length_words_text)
  have 1: "map_sum id (map span) (chunk_text 1000 800 (words_text 1100) (py ''d1'') (py ''a.txt'')) =
     Inr [(0, 1000), (200, 1100), (400, 1100), (600, 1100), (800, 1100), (1000, 1100)]"
    by (simp add: c span_window_chunk length_words_text)
  have 2: "map_sum id (\<lambda>cs. overlap (cs ! 1) (cs ! 2))
     (chunk_text 1000 800 (words_text 1100) (py ''d1'') (py ''a.txt'')) = Inr 700"
    by (simp add: c overlap_def window_chunk_def length_words_text)
  have len: "length (py_split gap_text) = 6" by (simp add: split_gap)
  have 3: "map_sum id (map offsets) (chunk_text 2 1 gap_text (py ''d1'') (py ''a.txt'')) =
     Inr [(0, 2, 2), (4, 6, 2)]"
    by (simp add: chunks_gap offsets_window len)
  have 4: "map_sum id (\<lambda>cs. overlap (cs ! 0) (cs ! 1))
     (chunk_text 2 1 gap_text (py ''d1'') (py ''a.txt'')) = Inr (- 2)"
    by (simp add: chunks_gap overlap_def window_chunk_def len)
  from 1 2 3 4 show ?thesis by (intro conjI)
qed

section \<open>The claims about file validation and queries\<close>

text \<open>
  C9. \<open>validate_file\<close> returns true exactly when the lowercased extension of the file name
  is one of \<open>.pdf\<close>, \<open>.docx\<close>, \<open>.txt\<close> and the size is at most 52428800 bytes.
\<close>

theorem validate_file_iff:
  "validate_file lower fname file_size \<longleftrightarrow>
     lower (snd (splitext fname)) \<in> {py ''.pdf'', py ''.docx'', py ''.txt''} \<and>
     file_size \<le> 52428800"
  by (auto simp add: validate_file_def Let_def supported_extensions_def)

text \<open>
  C6. For a query that is empty or whose trimmed length is below 3, \<open>process_query\<close>
  returns the failure result with the error \<open>Query must be at least 3 characters long\<close>
  and calls neither the vector store nor the generation service, and \<open>validate_query\<close>
  marks the query invalid.
\<close>

theorem short_query_rejected:
  assumes "query = [] \<or> length (py_strip query) < 3"
  shows "process_query svc query n_results =
           (Failure (py ''Query must be at least 3 characters long''), []) \<and>
         \<not> success (fst (process_query svc query n_results)) \<and>
         validate_query lower query =
           Invalid (if py_strip query = [] then py ''Query cannot be empty''
                    else py ''Query must be at least 3 characters long'') \<and>
         \<not> valid (validate_query lower query)"
proof -
  have e: "py_strip [] = []" by (simp add: py_strip_def)
  with assms have "length (py_strip query) < 3" by auto
  then show ?thesis
    by (auto simp add: process_query_def validate_query_def e)
qed

theorem short_query_rejected_witness:
  "(py '' ab '' = [] \<or> length (py_strip (py '' ab '')) < 3) \<and>
   process_query svc_store_empty (py '' ab '') 5 =
     (Failure (py ''Query must be at least 3 characters long''), []) \<and>
   \<not> success (fst (process_query svc_store_empty (py '' ab '') 5)) \<and>
   validate_query ascii_lower (py '' ab '') =
     Invalid (if py_strip (py '' ab '') = [] then py ''Query cannot be empty''
              else py ''Query must be at least 3 characters long'') \<and>
   \<not> valid (validate_query ascii_lower (py '' ab ''))"
proof -
  have h: "py '' ab '' = [] \<or> length (py_strip (py '' ab '')) < 3"
    by (simp add: py_def py_strip_def isspace_def)
  show ?thesis
    using h short_query_rejected [OF h, of svc_store_empty 5 ascii_lower]
    by blast
qed

text \<open>
  C8, as the code has it. For a query of trimmed length at least 3: when the search of the
  vector store raises, \<open>process_query\<close> makes that one call and returns the failure result
  \<open>No relevant documents found for your query\<close>, which is also its result when the store
  finds nothing; when the search returns results whose metadata hold \<open>filename\<close> and
  \<open>chunk_index\<close> and the generation call raises \<open>e\<close>, it makes one search call and one
  generation call and returns a successful result whose response is
  \<open>An error occurred while generating the response:\<close> followed by \<open>str(e)\<close>. No call is
  repeated.
\<close>

theorem upstream_failures:
  assumes "query \<noteq> []" "3 \<le> length (py_strip query)"
  shows "(\<forall>e. collection_query svc query n = Inl e \<longrightarrow>
            process_query svc query n =
              (Failure (py ''No relevant documents found for your query''), [Query query n])) \<and>
         (\<forall>hits srcs e.
            collection_query svc query n = Inr hits \<and> hits \<noteq> [] \<and>
            make_sources hits = Inr srcs \<and>
            generate_content svc (build_prompt query (map hit_text hits)) = Inl e \<longrightarrow>
            process_query svc query n =
              (Success query
                 (py ''An error occurred while generating the response: '' @ str_exn e)
                 srcs (length hits),
               [Query query n, Generate (build_prompt query (map hit_text hits))]))"
  using process_query_store_raises [OF assms] process_query_model_raises [OF assms]
  by blast

theorem upstream_failures_witness:
  "sample_query \<noteq> [] \<and> 3 \<le> length (py_strip sample_query) \<and>
   collection_query svc_store_down sample_query 5 = Inl (Exn (py ''connection refused'')) \<and>
   process_query svc_store_down sample_query 5 =
     (Failure (py ''No relevant documents found for your query''), [Query sample_query 5]) \<and>
   collection_query svc_model_down sample_query 5 = Inr [sample_hit] \<and>
   [sample_hit] \<noteq> [] \<and>
   make_sources [sample_hit] =
     Inr [\<lparr> src_filename = MStr (py ''a.txt''), src_chunk_index = MInt 0,
            src_distance = Some (), text_preview = hit_text sample_hit \<rparr>] \<and>
   generate_content svc_model_down (build_prompt sample_query (map hit_text [sample_hit])) =
     Inl (Exn (py ''quota exceeded'')) \<and>
   process_query svc_model_down sample_query 5 =
     (Success sample_query
        (py ''An error occurred while generating the response: '' @ str_exn (Exn (py ''quota exceeded'')))
        [\<lparr> src_filename = MStr (py ''a.txt''), src_chunk_index = MInt 0,
            src_distance = Some (), text_preview = hit_text sample_hit \<rparr>] (length [sample_hit]),
      [Query sample_query 5, Generate (build_prompt sample_query (map hit_text [sample_hit]))])"
proof -
  note v = sample_query_valid
  have 1: "collection_query svc_store_down sample_query 5 = Inl (Exn (py ''connection refused''))"
    by (simp add: svc_store_down_def)
  have 2: "process_query svc_store_down sample_query 5 =
     (Failure (py ''No relevant documents found for your query''), [Query sample_query 5])"
    using upstream_failures [OF v, of svc_store_down 5] 1 by blast
  have q: "collection_query svc_model_down sample_query 5 = Inr [sample_hit]"
    by (simp add: svc_model_down_def)
  have n: "[sample_hit] \<noteq> []" by simp
  note m = make_sources_sample
  have g: "generate_content svc_model_down (build_prompt sample_query (map hit_text [sample_hit])) =
     Inl (Exn (py ''quota exceeded''))"
    by (simp add: svc_model_down_def)
  have 3: "process_query svc_model_down sample_query 5 =
     (Success sample_query
        (py ''An error occurred while generating the response: '' @ str_exn (Exn (py ''quota exceeded'')))
        [\<lparr> src_filename = MStr (py ''a.txt''), src_chunk_index = MInt 0,
            src_distance = Some (), text_preview = hit_text sample_hit \<rparr>] (length [sample_hit]),
      [Query sample_query 5, Generate (build_prompt sample_query (map hit_text [sample_hit]))])"
    using upstream_failures [OF v, of svc_model_down 5] q n m g by blast
  from v 1 2 q n m g 3 show ?thesis by (intro conjI)
qed

theorem upstream_failures_counterexample:
  "collection_query svc_store_down sample_query 5 = Inl (Exn (py ''connection refused'')) \<and>
   process_query svc_store_down sample_query 5 =
     (Failure (py ''No relevant documents found for your query''), [Query sample_query 5]) \<and>
   process_query svc_store_down sample_query 5 = process_query svc_store_empty sample_query 5 \<and>
   generate_content svc_model_down (build_prompt sample_query [hit_text sample_hit]) =
     Inl (Exn (py ''quota exceeded'')) \<and>
   success (fst (process_query svc_model_down sample_query 5))"
proof -
  have 1: "collection_query svc_store_down sample_query 5 = Inl (Exn (py ''connection refused''))"
    by (simp add: svc_store_down_def)
  have 2: "process_query svc_store_down sample_query 5 =
     (Failure (py ''No relevant documents found for your query''), [Query sample_query 5])"
    using sample_query_valid 1 by (rule process_query_store_raises)
  have "collection_query svc_store_empty sample_query 5 = Inr []"
    by (simp add: svc_store_empty_def)
  with sample_query_valid have "process_query svc_store_empty sample_query 5 =
     (Failure (py ''No relevant documents found for your query''), [Query sample_query 5])"
    by (rule process_query_store_empty)
  with 2 have 3: "process_query svc_store_down sample_query 5 =
     process_query svc_store_empty sample_query 5"
    by simp
  have 4: "generate_content svc_model_down (build_prompt sample_query [hit_text sample_hit]) =
     Inl (Exn (py ''quota exceeded''))"
    by (simp add: svc_model_down_def)
  have q: "collection_query svc_model_down sample_query 5 = Inr [sample_hit]"
    by (simp add: svc_model_down_def)
  have g: "generate_content svc_model_down (build_prompt sample_query (map hit_text [sample_hit])) =
     Inl (Exn (py ''quota exceeded''))"
    by (simp add: svc_model_down_def)
  have "process_query svc_model_down sample_query 5 =
     (Success sample_query
        (py ''An error occurred while generating the response: '' @ str_exn (Exn (py ''quota exceeded'')))
        [\<lparr> src_filename = MStr (py ''a.txt''), src_chunk_index = MInt 0,
            src_distance = Some (), text_preview = hit_text sample_hit \<rparr>] (length [sample_hit]),
      [Query sample_query 5, Generate (build_prompt sample_query (map hit_text [sample_hit]))])"
    using process_query_model_raises [OF sample_query_valid q _ make_sources_sample g] by simp
  then have 5: "success (fst (process_query svc_model_down sample_query 5))"
    by simp
  from 1 2 3 4 5 show ?thesis by (intro conjI)
qed

section \<open>The claim about deletion\<close>

text \<open>
  C7. \<open>delete_document_chunks\<close> asks the store for at most 1000 entries of the document
  and deletes those. On a store that holds 1001 chunks of document \<open>d1\<close>, and returns
  matching entries in stored order, the call leaves the chunk with sequence number 1000 in
  the store, and that chunk still matches the document.
\<close>

theorem delete_leaves_chunks:
  "delete_document_chunks (chroma_query (\<lambda>q xs. xs)) chroma_delete
     (stored_chunks (py ''d1'') 1001) (py ''d1'') = [stored_chunk (py ''d1'') 1000] \<and>
   matches (py ''d1'') (stored_chunk (py ''d1'') 1000)"
proof -
  have "drop 1000 (stored_chunks (py ''d1'') 1001) = [stored_chunk (py ''d1'') 1000]"
    by (simp add: stored_chunks_def drop_map upt_last_chunk)
  then show ?thesis
    by (simp add: delete_stored_chunks matches_stored_chunk)
qed

end
